theory Spec2Isabelle
  imports Complex_Main
begin

section \<open>Job segmentation of pycbc.workflow.jobsetup\<close>

text \<open>
  The embedding follows \<^verbatim>\<open>src/pycbc/workflow/jobsetup.py\<close>: the class
  \<^verbatim>\<open>JobSegmenter\<close> and the driver \<^verbatim>\<open>sngl_ifo_job_setup\<close>.

  Numbers. GPS times, data lengths and the ends of valid chunks are Python integers
  (every \<^verbatim>\<open>get_valid_times\<close> of the sources builds them with \<^verbatim>\<open>int(...)\<close>),
  so they are \<^typ>\<open>int\<close> here. The segmenter converts the segment length with
  \<^verbatim>\<open>float(...)\<close> and computes the shift between jobs in floating point. The
  embedding takes these float operations as exact arithmetic on \<^typ>\<open>rat\<close>: the
  constant \<^verbatim>\<open>0.0001\<close> is \<open>1 / 10000\<close>, division is exact, \<^verbatim>\<open>math.ceil\<close> is
  the ceiling and \<^verbatim>\<open>int(...)\<close> truncates toward zero. Rounding errors of the
  binary floating point format are outside the model.
\<close>

subsection \<open>Errors\<close>

datatype error =
    ValueError string
  | ZeroDivisionError
  | IndexError
  | AttributeError

subsection \<open>Segments (ligo.segments.segment)\<close>

text \<open>
  A segment is an ordered pair of times; the constructor of the library puts the
  smaller bound first. \<^verbatim>\<open>abs(s)\<close> is its length, \<^verbatim>\<open>s.shift(x)\<close> adds \<open>x\<close> to
  both bounds, and two segments intersect iff each starts before the other ends.
  The library is not part of the repository; these are its documented operations.
\<close>

type_synonym segment = "int \<times> int"

definition segment :: "int \<Rightarrow> int \<Rightarrow> segment" where
  "segment a b = (if a \<le> b then (a, b) else (b, a))"

definition seg_abs :: "segment \<Rightarrow> int" where
  "seg_abs s = snd s - fst s"

definition seg_shift :: "segment \<Rightarrow> int \<Rightarrow> segment" where
  "seg_shift s x = (fst s + x, snd s + x)"

definition intersects :: "segment \<Rightarrow> segment \<Rightarrow> bool" where
  "intersects a b \<longleftrightarrow> fst a < snd b \<and> fst b < snd a"

subsection \<open>Float operations, taken exactly\<close>

definition py_int :: "rat \<Rightarrow> int" where
  "py_int x = (if 0 \<le> x then \<lfloor>x\<rfloor> else \<lceil>x\<rceil>)"

definition float_div :: "rat \<Rightarrow> rat \<Rightarrow> error + rat" where
  "float_div a b = (if b = 0 then Inl ZeroDivisionError else Inr (a / b))"

definition lookup :: "'a list \<Rightarrow> nat \<Rightarrow> error + 'a" where
  "lookup xs i = (if i < length xs then Inr (xs ! i) else Inl IndexError)"

subsection \<open>The executable class, as far as the segmenter looks at it\<close>

text \<open>
  \<^verbatim>\<open>get_data_times_for_job\<close> asks \<^verbatim>\<open>hasattr(self.exe_class, 'zero_pad_data_extend')\<close>.
  Of the job classes \<^verbatim>\<open>PyCBCInspiralExecutable\<close> defines that method; it reads the
  flag \<^verbatim>\<open>zero_padding\<close> and the options \<^verbatim>\<open>segment-start-pad\<close> and
  \<^verbatim>\<open>segment-end-pad\<close>. \<^verbatim>\<open>PyCBCTmpltbankExecutable\<close> does not define it.
\<close>

datatype exe_class =
    PyCBCInspiralExecutable (zero_padding: bool) (start_pad: int) (end_pad: int)
  | PyCBCTmpltbankExecutable

definition zero_pad_data_extend :: "bool \<Rightarrow> int \<Rightarrow> int \<Rightarrow> segment \<Rightarrow> segment \<Rightarrow> segment" where
  "zero_pad_data_extend zp spad epad job_data_seg curr_seg =
     (if \<not> zp then job_data_seg
      else
        let new_data_start = max (fst curr_seg) (fst job_data_seg - spad);
            new_data_end = min (snd curr_seg) (snd job_data_seg + epad)
        in segment new_data_start new_data_end)"

subsection \<open>JobSegmenter\<close>

text \<open>
  The attribute \<^verbatim>\<open>job_time_shift\<close> is not assigned when the constructor returns
  early with \<^verbatim>\<open>num_jobs = 0\<close>; it is \<open>None\<close> then, and reading it is an
  \<^verbatim>\<open>AttributeError\<close>.
\<close>

record JobSegmenter =
  exe_class :: exe_class
  curr_seg :: segment
  curr_seg_length :: rat
  data_length :: int
  valid_chunk :: segment
  valid_length :: int
  data_chunk :: segment
  data_loss :: int
  num_jobs :: int
  job_time_shift :: "rat option"

fun pick_loop :: "rat \<Rightarrow> int list \<Rightarrow> nat \<Rightarrow> nat \<times> rat \<Rightarrow> nat \<times> rat" where
  "pick_loop target_size [] i (pick, pick_diff) = (pick, pick_diff)"
| "pick_loop target_size (sz # rest) i (pick, pick_diff) =
     (if \<bar>of_int sz - target_size\<bar> < pick_diff
      then pick_loop target_size rest (Suc i) (i, \<bar>of_int sz - target_size\<bar>)
      else pick_loop target_size rest (Suc i) (pick, pick_diff))"

definition tile :: "int list \<Rightarrow> segment list \<Rightarrow> int list \<Rightarrow> nat \<Rightarrow> error + (int \<times> segment \<times> int)" where
  "tile data_lengths valid_chunks valid_lengths i =
     (case lookup data_lengths i of
        Inl e \<Rightarrow> Inl e
      | Inr d \<Rightarrow>
     (case lookup valid_chunks i of
        Inl e \<Rightarrow> Inl e
      | Inr c \<Rightarrow>
     (case lookup valid_lengths i of
        Inl e \<Rightarrow> Inl e
      | Inr v \<Rightarrow> Inr (d, c, v))))"

definition pick_index :: "rat \<Rightarrow> int list \<Rightarrow> error + nat" where
  "pick_index seg_size valid_lengths =
     (if length valid_lengths = 1 then Inr 0
      else case valid_lengths of
        [] \<Rightarrow> Inl IndexError
      | v0 # _ \<Rightarrow>
          let target_size = seg_size / 3
          in Inr (fst (pick_loop target_size valid_lengths 0 (0, \<bar>of_int v0 - target_size\<bar>))))"

definition pick_tile_size :: "rat \<Rightarrow> int list \<Rightarrow> segment list \<Rightarrow> int list \<Rightarrow> error + (int \<times> segment \<times> int)" where
  "pick_tile_size seg_size data_lengths valid_chunks valid_lengths =
     (case pick_index seg_size valid_lengths of
        Inl e \<Rightarrow> Inl e
      | Inr pick \<Rightarrow> tile data_lengths valid_chunks valid_lengths pick)"

text \<open>
  The constructor. \<open>num_jobs_of\<close> and \<open>time_shift_of\<close> are its two divisions
  (lines 394-395 and 397-404 of the source); both divide by a float, which raises
  \<^verbatim>\<open>ZeroDivisionError\<close> at zero.
\<close>

definition num_jobs_of :: "rat \<Rightarrow> int \<Rightarrow> int \<Rightarrow> error + int" where
  "num_jobs_of seg_length dloss vlen =
     (case float_div (seg_length - of_int dloss) (of_int vlen) of
        Inl e \<Rightarrow> Inl e
      | Inr q \<Rightarrow> Inr \<lceil>q\<rceil>)"

definition time_shift_of :: "rat \<Rightarrow> int \<Rightarrow> int \<Rightarrow> error + rat" where
  "time_shift_of seg_length dlen n =
     (if seg_length = of_int dlen then Inr 0
      else float_div (seg_length - of_int dlen) (of_int (n - 1)))"

definition JobSegmenter_init ::
  "int list \<Rightarrow> segment list \<Rightarrow> int list \<Rightarrow> segment \<Rightarrow> exe_class \<Rightarrow> error + JobSegmenter" where
  "JobSegmenter_init data_lengths valid_chunks valid_lengths seg cls =
     (let seg_length = (of_int (seg_abs seg) :: rat) in
      case pick_tile_size seg_length data_lengths valid_chunks valid_lengths of
        Inl e \<Rightarrow> Inl e
      | Inr (dlen, vchunk, vlen) \<Rightarrow>
          (let dchunk = segment 0 dlen;
               dloss = dlen - seg_abs vchunk;
               js = \<lparr> exe_class = cls, curr_seg = seg, curr_seg_length = seg_length,
                      data_length = dlen, valid_chunk = vchunk, valid_length = vlen,
                      data_chunk = dchunk, data_loss = dloss, num_jobs = 0,
                      job_time_shift = None \<rparr>
           in
           if dloss < 0
           then Inl (ValueError ''pycbc.workflow.jobsetup needs fixing! Please contact a developer'')
           else if seg_length < of_int dlen then Inr js
           else
             (case num_jobs_of seg_length dloss vlen of
                Inl e \<Rightarrow> Inl e
              | Inr n \<Rightarrow>
                  (case time_shift_of seg_length dlen n of
                     Inl e \<Rightarrow> Inl e
                   | Inr sh \<Rightarrow> Inr (js\<lparr> num_jobs := n, job_time_shift := Some sh \<rparr>)))))"

definition identify_needed_data :: "int list \<times> segment list \<Rightarrow> int list \<times> segment list \<times> int list" where
  "identify_needed_data valid_times =
     (case valid_times of (data_lengths, valid_chunks) \<Rightarrow>
        (data_lengths, valid_chunks, map seg_abs valid_chunks))"

text \<open>
  Both methods compute the offset of the job in the same words (lines 424-425 and
  452-453 of the source); each computation is embedded on its own.
\<close>

definition valid_shift_dur :: "JobSegmenter \<Rightarrow> int \<Rightarrow> error + int" where
  "valid_shift_dur js num_job =
     (case job_time_shift js of
        None \<Rightarrow> Inl AttributeError
      | Some sh \<Rightarrow> Inr (fst (curr_seg js) + py_int (sh * of_int num_job + 1 / 10000)))"

definition data_shift_dur :: "JobSegmenter \<Rightarrow> int \<Rightarrow> error + int" where
  "data_shift_dur js num_job =
     (case job_time_shift js of
        None \<Rightarrow> Inl AttributeError
      | Some sh \<Rightarrow> Inr (fst (curr_seg js) + py_int (sh * of_int num_job + 1 / 10000)))"

definition no_overlap_seg :: "JobSegmenter \<Rightarrow> int \<Rightarrow> segment \<Rightarrow> error + segment" where
  "no_overlap_seg js num_job job_valid_seg =
     (case float_div (curr_seg_length js - of_int (data_loss js)) (of_int (num_jobs js)) of
        Inl e \<Rightarrow> Inl e
      | Inr data_per_job \<Rightarrow>
          (let lower_boundary = of_int num_job * data_per_job
                                  + of_int (fst (valid_chunk js)) + of_int (fst (curr_seg js));
               upper_boundary = data_per_job + lower_boundary;
               lower_int = py_int lower_boundary;
               upper_int = py_int (upper_boundary + 1 / 10000)
           in
           if lower_int < fst job_valid_seg \<or> upper_int > snd job_valid_seg
           then Inl (ValueError ''Workflow is attempting to generate output from a job at times where it is not valid.'')
           else Inr (segment lower_int upper_int)))"

definition get_valid_times_for_job :: "JobSegmenter \<Rightarrow> int \<Rightarrow> bool \<Rightarrow> error + segment" where
  "get_valid_times_for_job js num_job allow_overlap =
     (case valid_shift_dur js num_job of
        Inl e \<Rightarrow> Inl e
      | Inr shift_dur \<Rightarrow>
          (let job_valid_seg = seg_shift (valid_chunk js) shift_dur
           in if \<not> allow_overlap then no_overlap_seg js num_job job_valid_seg
              else Inr job_valid_seg))"

definition extend_data_seg :: "exe_class \<Rightarrow> segment \<Rightarrow> segment \<Rightarrow> segment" where
  "extend_data_seg cls job_data_seg seg =
     (case cls of
        PyCBCInspiralExecutable zp spad epad \<Rightarrow> zero_pad_data_extend zp spad epad job_data_seg seg
      | PyCBCTmpltbankExecutable \<Rightarrow> job_data_seg)"

definition get_data_times_for_job :: "JobSegmenter \<Rightarrow> int \<Rightarrow> error + segment" where
  "get_data_times_for_job js num_job =
     (case data_shift_dur js num_job of
        Inl e \<Rightarrow> Inl e
      | Inr shift_dur \<Rightarrow>
          (let job_data_seg = seg_shift (data_chunk js) shift_dur
           in
           if num_job = 0 \<and> fst job_data_seg \<noteq> fst (curr_seg js)
           then Inl (ValueError ''Job is not using data from the start of the science segment. It should be using all data.'')
           else if num_job = num_jobs js - 1 \<and> snd job_data_seg \<noteq> snd (curr_seg js)
           then Inl (ValueError ''Job is not using data from the end of the science segment. It should be using all data.'')
           else Inr (extend_data_seg (exe_class js) job_data_seg (curr_seg js))))"

section \<open>Setting up the jobs of one detector: sngl_ifo_job_setup\<close>

subsection \<open>Files and the catalogue\<close>

text \<open>
  Modelled from the spec: the classes \<^verbatim>\<open>File\<close> and \<^verbatim>\<open>FileList\<close> belong to
  \<^verbatim>\<open>pycbc.workflow.core\<close>, which is not among the sources. A file is the
  \<open>Artifact\<close> of section 3 of the specification, with the three attributes the
  driver and the resolver read: the detector that owns it, the time it covers and
  its tags.
\<close>

record File =
  f_ifo :: string
  f_seg :: segment
  f_tags :: "string list"

text \<open>
  Modelled from the spec: \<^verbatim>\<open>FileList.find_outputs_in_range\<close> and
  \<^verbatim>\<open>FileList.find_all_output_in_range\<close> belong to \<^verbatim>\<open>pycbc.workflow.core\<close>, which is
  not among the sources. Section 4.3 of the specification gives their contract,
  \<^verbatim>\<open>find_overlapping(catalog, interval, owner_filter)\<close>: every artifact of the
  catalogue whose interval overlaps the target and whose owner matches, in catalogue
  order; section 4.1 gives the overlap test, which is \<^const>\<open>intersects\<close>.
\<close>

definition find_overlapping :: "File list \<Rightarrow> string \<Rightarrow> segment \<Rightarrow> File list" where
  "find_overlapping catalog ifo seg =
     filter (\<lambda>a. intersects (f_seg a) seg \<and> f_ifo a = ifo) catalog"

subsection \<open>Tags\<close>

text \<open>
  \<^verbatim>\<open>'bank' in t.lower()\<close>: a substring test on the lower-cased tag (the letters
  A to Z; tags are ASCII).
\<close>

definition lower_char :: "char \<Rightarrow> char" where
  "lower_char c =
     (let n = (of_char c :: nat) in if 65 \<le> n \<and> n \<le> 90 then char_of (n + 32) else c)"

definition lower :: "string \<Rightarrow> string" where
  "lower t = map lower_char t"

fun starts_with :: "string \<Rightarrow> string \<Rightarrow> bool" where
  "starts_with [] t = True"
| "starts_with (c # cs) [] = False"
| "starts_with (c # cs) (d # ds) = (c = d \<and> starts_with cs ds)"

fun str_in :: "string \<Rightarrow> string \<Rightarrow> bool" where
  "str_in w [] = (w = [])"
| "str_in w (d # ds) = (starts_with w (d # ds) \<or> str_in w ds)"

definition bank_tag :: "File \<Rightarrow> string list" where
  "bank_tag parent = filter (\<lambda>t. str_in ''bank'' (lower t)) (f_tags parent)"

subsection \<open>The job and the workflow\<close>

text \<open>
  The driver uses of the job object \<^verbatim>\<open>curr_exe_job\<close>: the result of
  \<^verbatim>\<open>get_valid_times()\<close>, its class (for the padding hook), its tags, the method
  \<^verbatim>\<open>create_node\<close> and the attribute \<^verbatim>\<open>output_files\<close> of the nodes it makes.
  \<^verbatim>\<open>create_node\<close> differs from class to class and may raise; it is a parameter
  here, called with the current tags of the job, the data segment, the valid
  segment, the parent and the datafind files.

  The state the driver changes: the nodes added to the workflow, the list
  \<^verbatim>\<open>out_files\<close>, and the current tags of the job (set by
  \<^verbatim>\<open>update_current_tags\<close>). An exception leaves the state as it was when it was
  raised, so every loop returns the state together with the error, if any.
\<close>

record 'n exe_job =
  job_valid_times :: "int list \<times> segment list"
  job_class :: exe_class
  job_tags :: "string list"
  create_node :: "string list \<Rightarrow> segment \<Rightarrow> segment \<Rightarrow> File option \<Rightarrow> File list option \<Rightarrow> error + 'n"
  output_files :: "'n \<Rightarrow> File list"

record 'n workflow_state =
  nodes :: "'n list"
  out_files :: "File list"
  current_tags :: "string list"

definition truthy :: "'a list option \<Rightarrow> bool" where
  "truthy l = (case l of None \<Rightarrow> False | Some xs \<Rightarrow> xs \<noteq> [])"

text \<open>
  Step (5) of the driver. The two messages print, with \<^verbatim>\<open>%d\<close>, the bounds of the
  segment for which nothing was found.
\<close>

fun show_nat :: "nat \<Rightarrow> string" where
  "show_nat n =
     (if n < 10 then [char_of (48 + n)]
      else show_nat (n div 10) @ [char_of (48 + n mod 10)])"

declare show_nat.simps [simp del]

definition show_int :: "int \<Rightarrow> string" where
  "show_int i = (if i < 0 then CHR ''-'' # show_nat (nat (- i)) else show_nat (nat i))"

definition parent_err_string :: "segment \<Rightarrow> string" where
  "parent_err_string job_valid_seg =
     ''No parent jobs found overlapping '' @ show_int (fst job_valid_seg) @ '' to ''
       @ show_int (snd job_valid_seg) @ ''.'' @ [CHR 0x0A]
       @ ''This is a bad error! Contact a developer.''"

definition datafind_err_str :: "segment \<Rightarrow> string" where
  "datafind_err_str job_data_seg =
     ''No datafind jobs found overlapping '' @ show_int (fst job_data_seg) @ '' to ''
       @ show_int (snd job_data_seg) @ ''.'' @ [CHR 0x0A]
       @ ''This shouldn't happen. Contact a developer.''"

definition find_parents :: "string \<Rightarrow> File list option \<Rightarrow> segment \<Rightarrow> error + File option list" where
  "find_parents ifo parents job_valid_seg =
     (case parents of
        None \<Rightarrow> Inr [None]
      | Some [] \<Rightarrow> Inr [None]
      | Some (p # ps) \<Rightarrow>
          (let curr_parent = find_overlapping (p # ps) ifo job_valid_seg
           in if curr_parent = []
              then Inl (ValueError (parent_err_string job_valid_seg))
              else Inr (map Some curr_parent)))"

definition find_dfouts :: "string \<Rightarrow> File list option \<Rightarrow> segment \<Rightarrow> error + File list option" where
  "find_dfouts ifo datafind_outs job_data_seg =
     (case datafind_outs of
        None \<Rightarrow> Inr None
      | Some [] \<Rightarrow> Inr None
      | Some (d # ds) \<Rightarrow>
          (let curr_dfouts = find_overlapping (d # ds) ifo job_data_seg
           in if curr_dfouts = []
              then Inl (ValueError (datafind_err_str job_data_seg))
              else Inr (Some curr_dfouts)))"

text \<open>Step (6): one node for each parent.\<close>

fun node_loop ::
  "'n exe_job \<Rightarrow> nat \<Rightarrow> segment \<Rightarrow> segment \<Rightarrow> File list option \<Rightarrow> File option list
     \<Rightarrow> 'n workflow_state \<Rightarrow> 'n workflow_state \<times> error option" where
  "node_loop job k job_data_seg job_valid_seg curr_dfouts [] st = (st, None)"
| "node_loop job k job_data_seg job_valid_seg curr_dfouts (parent # rest) st =
     (case (if k \<noteq> 1
            then (case parent of
                    None \<Rightarrow> Inl AttributeError
                  | Some p \<Rightarrow> Inr (st\<lparr> current_tags := bank_tag p @ job_tags job \<rparr>))
            else Inr st) of
        Inl e \<Rightarrow> (st, Some e)
      | Inr st1 \<Rightarrow>
          (case create_node job (current_tags st1) job_data_seg job_valid_seg parent curr_dfouts of
             Inl e \<Rightarrow> (st1, Some e)
           | Inr node \<Rightarrow>
               node_loop job k job_data_seg job_valid_seg curr_dfouts rest
                 (st1\<lparr> nodes := nodes st1 @ [node],
                       out_files := out_files st1
                          @ filter (\<lambda>i. ''PSD_FILE'' \<notin> set (f_tags i)) (output_files job node) \<rparr>)))"

text \<open>The body of the loop over the jobs of one science segment, steps (3) to (6).\<close>

definition setup_job ::
  "'n exe_job \<Rightarrow> string \<Rightarrow> File list option \<Rightarrow> File list option \<Rightarrow> bool \<Rightarrow> JobSegmenter \<Rightarrow> int
     \<Rightarrow> 'n workflow_state \<Rightarrow> 'n workflow_state \<times> error option" where
  "setup_job job ifo parents datafind_outs allow_overlap segmenter job_num st =
     (case get_valid_times_for_job segmenter job_num allow_overlap of
        Inl e \<Rightarrow> (st, Some e)
      | Inr job_valid_seg \<Rightarrow>
     (case get_data_times_for_job segmenter job_num of
        Inl e \<Rightarrow> (st, Some e)
      | Inr job_data_seg \<Rightarrow>
     (case find_parents ifo parents job_valid_seg of
        Inl e \<Rightarrow> (st, Some e)
      | Inr curr_parent \<Rightarrow>
     (case find_dfouts ifo datafind_outs job_data_seg of
        Inl e \<Rightarrow> (st, Some e)
      | Inr curr_dfouts \<Rightarrow>
          node_loop job (length curr_parent) job_data_seg job_valid_seg curr_dfouts
            curr_parent st))))"

definition py_range :: "int \<Rightarrow> int list" where
  "py_range n = map int [0..<nat n]"

fun job_loop ::
  "'n exe_job \<Rightarrow> string \<Rightarrow> File list option \<Rightarrow> File list option \<Rightarrow> bool \<Rightarrow> JobSegmenter \<Rightarrow> int list
     \<Rightarrow> 'n workflow_state \<Rightarrow> 'n workflow_state \<times> error option" where
  "job_loop job ifo parents datafind_outs allow_overlap segmenter [] st = (st, None)"
| "job_loop job ifo parents datafind_outs allow_overlap segmenter (job_num # rest) st =
     (case setup_job job ifo parents datafind_outs allow_overlap segmenter job_num st of
        (st1, Some e) \<Rightarrow> (st1, Some e)
      | (st1, None) \<Rightarrow> job_loop job ifo parents datafind_outs allow_overlap segmenter rest st1)"

fun seg_loop ::
  "'n exe_job \<Rightarrow> string \<Rightarrow> File list option \<Rightarrow> File list option \<Rightarrow> bool
     \<Rightarrow> int list \<times> segment list \<times> int list \<Rightarrow> segment list
     \<Rightarrow> 'n workflow_state \<Rightarrow> 'n workflow_state \<times> error option" where
  "seg_loop job ifo parents datafind_outs allow_overlap needed [] st = (st, None)"
| "seg_loop job ifo parents datafind_outs allow_overlap needed (seg # rest) st =
     (case needed of
        (data_lengths, valid_chunks, valid_lengths) \<Rightarrow>
     (case JobSegmenter_init data_lengths valid_chunks valid_lengths seg (job_class job) of
        Inl e \<Rightarrow> (st, Some e)
      | Inr segmenter \<Rightarrow>
     (case job_loop job ifo parents datafind_outs allow_overlap segmenter
             (py_range (num_jobs segmenter)) st of
        (st1, Some e) \<Rightarrow> (st1, Some e)
      | (st1, None) \<Rightarrow> seg_loop job ifo parents datafind_outs allow_overlap needed rest st1)))"

text \<open>
  The driver: \<open>identify_needed_data\<close> once, then the loop over the science segments.
  It returns \<open>out_files\<close>, which is part of the state here.
\<close>

definition sngl_ifo_job_setup ::
  "'n list \<Rightarrow> string \<Rightarrow> File list \<Rightarrow> 'n exe_job \<Rightarrow> segment list \<Rightarrow> File list option
     \<Rightarrow> File list option \<Rightarrow> bool \<Rightarrow> 'n workflow_state \<times> error option" where
  "sngl_ifo_job_setup workflow ifo out curr_exe_job science_segs datafind_outs parents
       allow_overlap =
     seg_loop curr_exe_job ifo parents datafind_outs allow_overlap
       (identify_needed_data (job_valid_times curr_exe_job)) science_segs
       \<lparr> nodes = workflow, out_files = out, current_tags = job_tags curr_exe_job \<rparr>"

section \<open>Notions used to state the properties\<close>





text \<open>
  The padding hook moves the ends of the data window outwards when the two padding
  options are not negative.
\<close>

definition nonneg_pads :: "exe_class \<Rightarrow> bool" where
  "nonneg_pads cls =
     (case cls of
        PyCBCInspiralExecutable zp spad epad \<Rightarrow> 0 \<le> spad \<and> 0 \<le> epad
      | PyCBCTmpltbankExecutable \<Rightarrow> True)"

section \<open>Concrete inputs\<close>

text \<open>
  The inputs of the scenarios of section 8 of the specification, at which the theorems
  below are instantiated. \<open>scenario_segmenter\<close> is the segmenter of the science
  segment [0, 6000] for a job that reads 2048 seconds and is valid on [72, 1976] of
  them; \<open>padded_segmenter\<close> is the same for an inspiral job with zero padding and
  pads of 8 seconds. The nodes of \<open>plain_job\<close> record the arguments they were
  created with.
\<close>

definition scenario_segmenter :: JobSegmenter where
  "scenario_segmenter =
     \<lparr> exe_class = PyCBCTmpltbankExecutable, curr_seg = (0, 6000), curr_seg_length = 6000,
       data_length = 2048, valid_chunk = (72, 1976), valid_length = 1904,
       data_chunk = (0, 2048), data_loss = 144, num_jobs = 4,
       job_time_shift = Some (3952 / 3) \<rparr>"

definition padded_segmenter :: JobSegmenter where
  "padded_segmenter = scenario_segmenter\<lparr> exe_class := PyCBCInspiralExecutable True 8 8 \<rparr>"


definition bank_file :: File where
  "bank_file = \<lparr> f_ifo = ''H1'', f_seg = (50, 2000), f_tags = [''bank''] \<rparr>"

definition split_bank_files :: "File list" where
  "split_bank_files =
     [\<lparr> f_ifo = ''H1'', f_seg = (0, 6000), f_tags = [''BANK0''] \<rparr>,
      \<lparr> f_ifo = ''H1'', f_seg = (0, 6000), f_tags = [''BANK1''] \<rparr>]"

definition frame_files :: "File list" where
  "frame_files =
     [\<lparr> f_ifo = ''H1'', f_seg = (0, 4096), f_tags = [''DATAFIND''] \<rparr>,
      \<lparr> f_ifo = ''L1'', f_seg = (0, 6000), f_tags = [''DATAFIND''] \<rparr>]"

type_synonym plain_node = "string list \<times> segment \<times> segment \<times> File option \<times> File list option"

definition plain_job :: "plain_node exe_job" where
  "plain_job =
     \<lparr> job_valid_times = ([2048], [(72, 1976)]), job_class = PyCBCTmpltbankExecutable,
       job_tags = [''FULL_DATA''],
       create_node = (\<lambda>tags data_seg valid_seg parent df_parents.
                        Inr (tags, data_seg, valid_seg, parent, df_parents)),
       output_files = (\<lambda>node. []) \<rparr>"

definition empty_workflow :: "plain_node workflow_state" where
  "empty_workflow = \<lparr> nodes = [], out_files = [], current_tags = [''FULL_DATA''] \<rparr>"

section \<open>Properties of the segmenter\<close>

subsection \<open>What the constructor returns\<close>

lemma init_fields:
  assumes "JobSegmenter_init dls vcs vls seg cls = Inr js"
  shows "curr_seg js = seg" and "exe_class js = cls"
    and "curr_seg_length js = of_int (seg_abs seg)"
    and "data_chunk js = segment 0 (data_length js)"
    and "data_loss js = data_length js - seg_abs (valid_chunk js)"
    and "0 \<le> data_loss js"
    and "pick_tile_size (of_int (seg_abs seg)) dls vcs vls
           = Inr (data_length js, valid_chunk js, valid_length js)"
  using assms
  by (auto simp: JobSegmenter_init_def Let_def split: sum.splits prod.splits if_splits)

lemma init_short:
  assumes "JobSegmenter_init dls vcs vls seg cls = Inr js"
    and "seg_abs seg < data_length js"
  shows "num_jobs js = 0" and "job_time_shift js = None"
  using assms
  by (auto simp: JobSegmenter_init_def Let_def split: sum.splits prod.splits if_splits)

lemma init_long:
  assumes "JobSegmenter_init dls vcs vls seg cls = Inr js"
    and "data_length js \<le> seg_abs seg"
  shows "num_jobs_of (of_int (seg_abs seg)) (data_loss js) (valid_length js) = Inr (num_jobs js)"
    and "\<exists>sh. time_shift_of (of_int (seg_abs seg)) (data_length js) (num_jobs js) = Inr sh
            \<and> job_time_shift js = Some sh"
  using assms
  by (auto simp: JobSegmenter_init_def Let_def split: sum.splits prod.splits if_splits)

lemma tile_Inr:
  "tile dls vcs vls p = Inr (d, c, v) \<longleftrightarrow>
     p < length dls \<and> p < length vcs \<and> p < length vls \<and> d = dls ! p \<and> c = vcs ! p \<and> v = vls ! p"
  by (auto simp: tile_def lookup_def split: sum.splits if_splits)

subsection \<open>Arithmetic of the job count and of the offsets\<close>

lemma py_int_nonneg: "0 \<le> x \<Longrightarrow> py_int x = \<lfloor>x\<rfloor>"
  by (simp add: py_int_def)

lemma ceil_div_props:
  fixes M V :: int
  assumes V: "0 < V" and M: "0 \<le> M"
  shows "0 \<le> \<lceil>(of_int M :: rat) / of_int V\<rceil>"
    and "\<lceil>(of_int M :: rat) / of_int V\<rceil> = 0 \<longleftrightarrow> M = 0"
    and "(of_int M :: rat) \<le> of_int \<lceil>(of_int M :: rat) / of_int V\<rceil> * of_int V"
proof -
  let ?q = "(of_int M :: rat) / of_int V"
  have q0: "0 \<le> ?q" using V M by simp
  then show "0 \<le> \<lceil>?q\<rceil>" by (simp add: zero_le_ceiling)
  show "\<lceil>?q\<rceil> = 0 \<longleftrightarrow> M = 0"
  proof
    assume "\<lceil>?q\<rceil> = 0"
    then have "?q \<le> 0" by (metis le_of_int_ceiling of_int_0)
    with q0 have "?q = 0" by simp
    with V show "M = 0" by simp
  qed simp
  have "?q \<le> of_int \<lceil>?q\<rceil>" by (rule le_of_int_ceiling)
  then have "?q * of_int V \<le> of_int \<lceil>?q\<rceil> * of_int V"
    using V by (intro mult_right_mono) simp_all
  moreover have "?q * of_int V = of_int M" using V by simp
  ultimately show "(of_int M :: rat) \<le> of_int \<lceil>?q\<rceil> * of_int V" by simp
qed

lemma num_jobs_of_eq:
  fixes L D V :: int
  assumes "0 < V"
  shows "num_jobs_of (of_int L) (D - V) V = Inr (\<lceil>(of_int (L - D) :: rat) / of_int V\<rceil> + 1)"
proof -
  have "((of_int L :: rat) - of_int (D - V)) / of_int V = of_int (L - D) / of_int V + 1"
    using assms by (simp add: field_simps)
  then show ?thesis
    using assms by (simp add: num_jobs_of_def float_div_def)
qed

text \<open>The offsets of the jobs, for a shift M / m with 0 \<le> M \<le> m * V.\<close>

lemma offset_first: "py_int (sh * of_int 0 + 1 / 10000) = 0"
proof -
  have "\<lfloor>1 / 10000 :: rat\<rfloor> = 0" by (simp add: floor_eq_iff)
  then show ?thesis by (simp add: py_int_def)
qed


subsection \<open>The segmenter of a segment that is long enough\<close>

lemma pick_tile_size_Inr:
  assumes "pick_tile_size t dls vcs vls = Inr (d, c, v)"
  shows "\<exists>p. pick_index t vls = Inr p \<and> p < length dls \<and> p < length vcs \<and> p < length vls
           \<and> d = dls ! p \<and> c = vcs ! p \<and> v = vls ! p"
  using assms by (auto simp: pick_tile_size_def tile_Inr split: sum.splits)

lemma init_valid_length:
  assumes "JobSegmenter_init dls vcs (map seg_abs vcs) seg cls = Inr js"
  shows "valid_length js = seg_abs (valid_chunk js)"
proof -
  from init_fields(7)[OF assms] obtain p where
    "p < length vcs" "valid_chunk js = vcs ! p" "valid_length js = map seg_abs vcs ! p"
    by (auto dest!: pick_tile_size_Inr)
  then show ?thesis by simp
qed

lemma init_tiled:
  assumes init: "JobSegmenter_init dls vcs (map seg_abs vcs) seg cls = Inr js"
    and wf: "fst (valid_chunk js) \<le> snd (valid_chunk js)"
    and long: "data_length js \<le> seg_abs seg"
  shows "0 < seg_abs (valid_chunk js)"
    and "num_jobs js = \<lceil>(of_int (seg_abs seg - data_length js) :: rat) / of_int (seg_abs (valid_chunk js))\<rceil> + 1"
    and "job_time_shift js = Some (if seg_abs seg = data_length js then 0
           else of_int (seg_abs seg - data_length js) / of_int (num_jobs js - 1))"
    and "seg_abs seg \<noteq> data_length js \<longrightarrow> num_jobs js - 1 \<noteq> 0"
proof -
  let ?V = "seg_abs (valid_chunk js)"
  let ?D = "data_length js"
  let ?L = "seg_abs seg"
  note vl = init_valid_length[OF init]
  note nj = init_long(1)[OF init long]
  from init_long(2)[OF init long] obtain sh where
    sh: "time_shift_of (of_int ?L) ?D (num_jobs js) = Inr sh" "job_time_shift js = Some sh"
    by blast
  have "?V \<noteq> 0"
    using nj by (auto simp: num_jobs_of_def float_div_def vl split: if_splits)
  moreover have "0 \<le> ?V" using wf by (simp add: seg_abs_def)
  ultimately show V: "0 < ?V" by simp
  have loss: "data_loss js = ?D - ?V" by (rule init_fields(5)[OF init])
  from nj show n: "num_jobs js = \<lceil>(of_int (?L - ?D) :: rat) / of_int ?V\<rceil> + 1"
    unfolding loss vl num_jobs_of_eq[OF V] by simp
  from ceil_div_props(2)[OF V, of "?L - ?D"] long
  show n1: "?L \<noteq> ?D \<longrightarrow> num_jobs js - 1 \<noteq> 0"
    unfolding n by simp
  show "job_time_shift js = Some (if ?L = ?D then 0
           else of_int (?L - ?D) / of_int (num_jobs js - 1))"
    using sh n1 by (auto simp: time_shift_of_def float_div_def split: if_splits)
qed


lemma floor_add_eps: "\<lfloor>(of_int k :: rat) + 1 / 10000\<rfloor> = k"
  by (simp add: floor_unique)

lemma offset_last':
  fixes M m :: int and sh :: rat
  assumes "sh * of_int m = of_int M" "0 \<le> M"
  shows "py_int (sh * of_int m + 1 / 10000) = M"
  using assms by (simp add: py_int_def floor_add_eps)

lemma offset_bounds':
  fixes M m i :: int and sh :: rat
  assumes sh0: "0 \<le> sh" and prod: "sh * of_int m = of_int M" and i: "0 \<le> i" "i \<le> m"
  shows "0 \<le> py_int (sh * of_int i + 1 / 10000)"
    and "py_int (sh * of_int i + 1 / 10000) \<le> M"
proof -
  let ?x = "sh * of_int i + 1 / 10000"
  have x0: "0 \<le> ?x" using sh0 i by simp
  then show "0 \<le> py_int ?x" by (simp add: py_int_nonneg)
  have "sh * of_int i \<le> sh * of_int m"
    using sh0 i by (intro mult_left_mono) simp_all
  then have "?x \<le> of_int M + 1 / 10000" using prod by simp
  then have "\<lfloor>?x\<rfloor> \<le> \<lfloor>(of_int M :: rat) + 1 / 10000\<rfloor>" by (rule floor_mono)
  then show "py_int ?x \<le> M" using x0 by (simp add: py_int_nonneg floor_add_eps)
qed

text \<open>The shift of a segmenter with at least one job.\<close>

lemma init_shift:
  assumes init: "JobSegmenter_init dls vcs (map seg_abs vcs) seg cls = Inr js"
    and wf: "fst (valid_chunk js) \<le> snd (valid_chunk js)"
    and long: "data_length js \<le> seg_abs seg"
  shows "\<exists>sh. job_time_shift js = Some sh \<and> 0 \<le> sh
           \<and> sh \<le> of_int (seg_abs (valid_chunk js))
           \<and> sh * of_int (num_jobs js - 1) = of_int (seg_abs seg - data_length js)
           \<and> sh = (if seg_abs seg = data_length js then 0
                    else of_int (seg_abs seg - data_length js) / of_int (num_jobs js - 1))"
    and "1 \<le> num_jobs js"
proof -
  let ?V = "seg_abs (valid_chunk js)"
  let ?M = "seg_abs seg - data_length js"
  let ?m = "num_jobs js - 1"
  note t = init_tiled[OF init wf long]
  have M0: "0 \<le> ?M" using long by simp
  have m: "?m = \<lceil>(of_int ?M :: rat) / of_int ?V\<rceil>" using t(2) by simp
  have m0: "0 \<le> ?m" unfolding m by (rule ceil_div_props(1)[OF t(1) M0])
  then show "1 \<le> num_jobs js" by simp
  have le: "(of_int ?M :: rat) \<le> of_int ?m * of_int ?V"
    unfolding m by (rule ceil_div_props(3)[OF t(1) M0])
  show "\<exists>sh. job_time_shift js = Some sh \<and> 0 \<le> sh \<and> sh \<le> of_int ?V
           \<and> sh * of_int ?m = of_int ?M
           \<and> sh = (if seg_abs seg = data_length js then 0 else of_int ?M / of_int ?m)"
  proof (cases "seg_abs seg = data_length js")
    case True
    then show ?thesis using t(1,3) by simp
  next
    case False
    with t(4) m0 have mpos: "0 < ?m" by simp
    have "(of_int ?M :: rat) / of_int ?m \<le> of_int ?V"
      using le mpos by (simp add: pos_divide_le_eq mult.commute)
    moreover have "0 \<le> (of_int ?M :: rat) / of_int ?m" using M0 mpos by simp
    moreover have "(of_int ?M :: rat) / of_int ?m * of_int ?m = of_int ?M" using mpos by simp
    ultimately show ?thesis using t(3) False by simp
  qed
qed

lemma init_long_of_jobs:
  assumes init: "JobSegmenter_init dls vcs vls seg cls = Inr js"
    and n: "1 \<le> num_jobs js"
  shows "data_length js \<le> seg_abs seg"
proof (rule ccontr)
  assume "\<not> data_length js \<le> seg_abs seg"
  then have "seg_abs seg < data_length js" by simp
  from init_short(1)[OF init this] n show False by simp
qed

subsection \<open>The windows of the jobs\<close>

lemma seg_shift_wf: "fst s \<le> snd s \<Longrightarrow> seg_shift s x = (fst s + x, snd s + x)"
  by (simp add: seg_shift_def segment_def)

lemma extend_data_seg_flush:
  assumes "nonneg_pads cls" "fst d \<le> snd d" "fst seg \<le> fst d" "snd d \<le> snd seg"
  shows "fst (extend_data_seg cls d seg) \<le> fst d"
    and "snd d \<le> snd (extend_data_seg cls d seg)"
    and "fst d = fst seg \<longrightarrow> fst (extend_data_seg cls d seg) = fst seg"
    and "snd d = snd seg \<longrightarrow> snd (extend_data_seg cls d seg) = snd seg"
  using assms
  by (auto simp: extend_data_seg_def nonneg_pads_def zero_pad_data_extend_def segment_def Let_def
      split: exe_class.splits)

text \<open>The offset of job i, for a segmenter with at least one job.\<close>

lemma init_offsets:
  assumes init: "JobSegmenter_init dls vcs (map seg_abs vcs) seg cls = Inr js"
    and wf: "fst (valid_chunk js) \<le> snd (valid_chunk js)"
    and n: "1 \<le> num_jobs js"
    and i: "0 \<le> i" "i < num_jobs js"
  shows "\<exists>off. valid_shift_dur js i = Inr (fst seg + off)
            \<and> data_shift_dur js i = Inr (fst seg + off)
            \<and> 0 \<le> off \<and> off \<le> seg_abs seg - data_length js
            \<and> (i = 0 \<longrightarrow> off = 0)
            \<and> (i = num_jobs js - 1 \<longrightarrow> off = seg_abs seg - data_length js)"
proof -
  note long = init_long_of_jobs[OF init n]
  from init_shift(1)[OF init wf long] obtain sh where
    sh: "job_time_shift js = Some sh" "0 \<le> sh"
      "sh * of_int (num_jobs js - 1) = of_int (seg_abs seg - data_length js)"
    by blast
  let ?off = "py_int (sh * of_int i + 1 / 10000)"
  have cs: "curr_seg js = seg" by (rule init_fields(1)[OF init])
  have i': "i \<le> num_jobs js - 1" using i by simp
  have M0: "0 \<le> seg_abs seg - data_length js" using long by simp
  have "valid_shift_dur js i = Inr (fst seg + ?off)"
    by (simp add: valid_shift_dur_def sh(1) cs)
  moreover have "data_shift_dur js i = Inr (fst seg + ?off)"
    by (simp add: data_shift_dur_def sh(1) cs)
  moreover have "0 \<le> ?off" by (rule offset_bounds'(1)[OF sh(2,3) i(1) i'])
  moreover have "?off \<le> seg_abs seg - data_length js" by (rule offset_bounds'(2)[OF sh(2,3) i(1) i'])
  moreover have "i = 0 \<longrightarrow> ?off = 0" using offset_first[of sh] by auto
  moreover have "i = num_jobs js - 1 \<longrightarrow> ?off = seg_abs seg - data_length js"
    using offset_last'[OF sh(3) M0] by auto
  ultimately show ?thesis by blast
qed

lemma init_data_chunk:
  assumes init: "JobSegmenter_init dls vcs (map seg_abs vcs) seg cls = Inr js"
    and wf: "fst (valid_chunk js) \<le> snd (valid_chunk js)"
    and n: "1 \<le> num_jobs js"
  shows "data_chunk js = (0, data_length js)" and "0 < data_length js"
proof -
  note long = init_long_of_jobs[OF init n]
  from init_tiled(1)[OF init wf long] init_fields(5,6)[OF init]
  show D: "0 < data_length js" by simp
  then show "data_chunk js = (0, data_length js)"
    using init_fields(4)[OF init] by (simp add: segment_def)
qed

lemma init_data_window:
  assumes init: "JobSegmenter_init dls vcs (map seg_abs vcs) seg cls = Inr js"
    and wf: "fst (valid_chunk js) \<le> snd (valid_chunk js)"
    and n: "1 \<le> num_jobs js"
    and i: "0 \<le> i" "i < num_jobs js"
  shows "\<exists>off. get_data_times_for_job js i
                 = Inr (extend_data_seg cls (fst seg + off, data_length js + (fst seg + off)) seg)
               \<and> valid_shift_dur js i = Inr (fst seg + off)
               \<and> 0 \<le> off \<and> off \<le> seg_abs seg - data_length js
               \<and> (i = 0 \<longrightarrow> off = 0)
               \<and> (i = num_jobs js - 1 \<longrightarrow> off = seg_abs seg - data_length js)"
proof -
  note dc = init_data_chunk[OF init wf n]
  have cs: "curr_seg js = seg" by (rule init_fields(1)[OF init])
  have ec: "exe_class js = cls" by (rule init_fields(2)[OF init])
  have sh: "seg_shift (data_chunk js) x = (x, data_length js + x)" for x
    using dc by (simp add: seg_shift_wf)
  from init_offsets[OF init wf n i] obtain off where
    off: "data_shift_dur js i = Inr (fst seg + off)" "valid_shift_dur js i = Inr (fst seg + off)"
      "0 \<le> off"
      "off \<le> seg_abs seg - data_length js" "i = 0 \<longrightarrow> off = 0"
      "i = num_jobs js - 1 \<longrightarrow> off = seg_abs seg - data_length js"
    by blast
  have "get_data_times_for_job js i
          = Inr (extend_data_seg cls (fst seg + off, data_length js + (fst seg + off)) seg)"
    using off(5,6) by (auto simp: get_data_times_for_job_def off(1) sh cs ec seg_abs_def)
  with off show ?thesis by blast
qed

subsection \<open>The union of a chain of windows\<close>




subsection \<open>The slices computed when overlap is not allowed\<close>

















subsection \<open>The choice of the tile\<close>

lemma pick_loop_inv:
  fixes t :: rat
  assumes "pick_loop t xs (length pre) (pick, pd) = (p', pd')"
    and "pick < length (pre @ xs)" and "pick \<le> length pre"
    and "pd = \<bar>of_int ((pre @ xs) ! pick) - t\<bar>"
    and "\<forall>j<length pre. pd \<le> \<bar>of_int ((pre @ xs) ! j) - t\<bar>"
    and "\<forall>j<pick. pd < \<bar>of_int ((pre @ xs) ! j) - t\<bar>"
  shows "p' < length (pre @ xs)
     \<and> (\<forall>j<length (pre @ xs). \<bar>of_int ((pre @ xs) ! p') - t\<bar> \<le> \<bar>of_int ((pre @ xs) ! j) - t\<bar>)
     \<and> (\<forall>j<p'. \<bar>of_int ((pre @ xs) ! p') - t\<bar> < \<bar>of_int ((pre @ xs) ! j) - t\<bar>)"
  using assms
proof (induction xs arbitrary: pre pick pd)
  case Nil
  then show ?case by simp
next
  case (Cons x xs)
  let ?all = "pre @ x # xs"
  have all: "?all = (pre @ [x]) @ xs" by simp
  have len: "length (pre @ [x]) = Suc (length pre)" by simp
  have xat: "?all ! length pre = x" by simp
  show ?case
  proof (cases "\<bar>of_int x - t\<bar> < pd")
    case True
    with Cons.prems(1)
    have run: "pick_loop t xs (length (pre @ [x])) (length pre, \<bar>of_int x - t\<bar>) = (p', pd')"
      by simp
    have "p' < length ((pre @ [x]) @ xs)
     \<and> (\<forall>j<length ((pre @ [x]) @ xs). \<bar>of_int (((pre @ [x]) @ xs) ! p') - t\<bar> \<le> \<bar>of_int (((pre @ [x]) @ xs) ! j) - t\<bar>)
     \<and> (\<forall>j<p'. \<bar>of_int (((pre @ [x]) @ xs) ! p') - t\<bar> < \<bar>of_int (((pre @ [x]) @ xs) ! j) - t\<bar>)"
    proof (rule Cons.IH[OF run])
      show "length pre < length ((pre @ [x]) @ xs)" by simp
      show "length pre \<le> length (pre @ [x])" by simp
      show "\<bar>of_int x - t\<bar> = \<bar>of_int (((pre @ [x]) @ xs) ! length pre) - t\<bar>" by simp
      show "\<forall>j<length (pre @ [x]). \<bar>of_int x - t\<bar> \<le> \<bar>of_int (((pre @ [x]) @ xs) ! j) - t\<bar>"
      proof (intro allI impI)
        fix j assume "j < length (pre @ [x])"
        then consider "j < length pre" | "j = length pre" by fastforce
        then show "\<bar>of_int x - t\<bar> \<le> \<bar>of_int (((pre @ [x]) @ xs) ! j) - t\<bar>"
        proof cases
          case 1
          with Cons.prems(5) have "pd \<le> \<bar>of_int (?all ! j) - t\<bar>" by blast
          with True show ?thesis by simp
        next
          case 2
          then show ?thesis by simp
        qed
      qed
      show "\<forall>j<length pre. \<bar>of_int x - t\<bar> < \<bar>of_int (((pre @ [x]) @ xs) ! j) - t\<bar>"
      proof (intro allI impI)
        fix j assume "j < length pre"
        with Cons.prems(5) have "pd \<le> \<bar>of_int (?all ! j) - t\<bar>" by blast
        with True show "\<bar>of_int x - t\<bar> < \<bar>of_int (((pre @ [x]) @ xs) ! j) - t\<bar>" by simp
      qed
    qed
    then show ?thesis by simp
  next
    case False
    with Cons.prems(1)
    have run: "pick_loop t xs (length (pre @ [x])) (pick, pd) = (p', pd')"
      by simp
    have "p' < length ((pre @ [x]) @ xs)
     \<and> (\<forall>j<length ((pre @ [x]) @ xs). \<bar>of_int (((pre @ [x]) @ xs) ! p') - t\<bar> \<le> \<bar>of_int (((pre @ [x]) @ xs) ! j) - t\<bar>)
     \<and> (\<forall>j<p'. \<bar>of_int (((pre @ [x]) @ xs) ! p') - t\<bar> < \<bar>of_int (((pre @ [x]) @ xs) ! j) - t\<bar>)"
    proof (rule Cons.IH[OF run])
      show "pick < length ((pre @ [x]) @ xs)" using Cons.prems(2) by simp
      show "pick \<le> length (pre @ [x])" using Cons.prems(3) by simp
      show "pd = \<bar>of_int (((pre @ [x]) @ xs) ! pick) - t\<bar>" using Cons.prems(4) by simp
      show "\<forall>j<length (pre @ [x]). pd \<le> \<bar>of_int (((pre @ [x]) @ xs) ! j) - t\<bar>"
      proof (intro allI impI)
        fix j assume "j < length (pre @ [x])"
        then consider "j < length pre" | "j = length pre" by fastforce
        then show "pd \<le> \<bar>of_int (((pre @ [x]) @ xs) ! j) - t\<bar>"
        proof cases
          case 1
          with Cons.prems(5) show ?thesis by simp
        next
          case 2
          with False show ?thesis by simp
        qed
      qed
      show "\<forall>j<pick. pd < \<bar>of_int (((pre @ [x]) @ xs) ! j) - t\<bar>"
        using Cons.prems(6) by simp
    qed
    then show ?thesis by simp
  qed
qed

lemma pick_index_argmin:
  fixes t :: rat
  assumes "vls \<noteq> []"
  shows "\<exists>p. pick_index t vls = Inr p \<and> p < length vls
     \<and> (length vls = 1 \<longrightarrow> p = 0)
     \<and> (\<forall>j<length vls. \<bar>of_int (vls ! p) - t / 3\<bar> \<le> \<bar>of_int (vls ! j) - t / 3\<bar>)
     \<and> (\<forall>j<p. \<bar>of_int (vls ! p) - t / 3\<bar> < \<bar>of_int (vls ! j) - t / 3\<bar>)"
proof (cases "length vls = 1")
  case True
  then show ?thesis by (auto simp: pick_index_def)
next
  case False
  from assms obtain v0 rest where vls: "vls = v0 # rest" by (cases vls) auto
  obtain p' pd' where run:
    "pick_loop (t / 3) vls (length ([] :: int list)) (0, \<bar>of_int (([] @ vls) ! 0) - t / 3\<bar>) = (p', pd')"
    by fastforce
  have "p' < length ([] @ vls)
     \<and> (\<forall>j<length ([] @ vls). \<bar>of_int (([] @ vls) ! p') - t / 3\<bar> \<le> \<bar>of_int (([] @ vls) ! j) - t / 3\<bar>)
     \<and> (\<forall>j<p'. \<bar>of_int (([] @ vls) ! p') - t / 3\<bar> < \<bar>of_int (([] @ vls) ! j) - t / 3\<bar>)"
    by (rule pick_loop_inv[OF run]) (simp_all add: vls)
  moreover have "pick_index t vls = Inr p'"
    using False run by (simp add: pick_index_def vls Let_def)
  ultimately show ?thesis using False by auto
qed

section \<open>Properties of the driver\<close>

lemma find_overlapping_empty:
  "find_overlapping catalog ifo seg = []
     \<longleftrightarrow> (\<forall>a\<in>set catalog. \<not> (intersects (f_seg a) seg \<and> f_ifo a = ifo))"
  by (simp add: find_overlapping_def filter_empty_conv)

lemma find_parents_cases:
  "find_parents ifo parents v =
     (if truthy parents
      then (if find_overlapping (the parents) ifo v = []
            then Inl (ValueError (parent_err_string v))
            else Inr (map Some (find_overlapping (the parents) ifo v)))
      else Inr [None])"
  by (auto simp: find_parents_def truthy_def Let_def split: option.splits list.splits)

lemma find_dfouts_cases:
  "find_dfouts ifo datafind_outs d =
     (if truthy datafind_outs
      then (if find_overlapping (the datafind_outs) ifo d = []
            then Inl (ValueError (datafind_err_str d))
            else Inr (Some (find_overlapping (the datafind_outs) ifo d)))
      else Inr None)"
  by (auto simp: find_dfouts_def truthy_def Let_def split: option.splits list.splits)

lemma node_loop_adds_one_node_per_parent:
  assumes "\<forall>p\<in>set ps. \<forall>tags. \<exists>node. create_node job tags d v p df = Inr node"
    and "k \<noteq> 1 \<longrightarrow> None \<notin> set ps"
  shows "\<exists>st' new. node_loop job k d v df ps st = (st', None)
          \<and> nodes st' = nodes st @ new \<and> length new = length ps
          \<and> (\<forall>i<length ps. \<exists>tags. create_node job tags d v (ps ! i) df = Inr (new ! i))"
  using assms
proof (induction ps arbitrary: st)
  case Nil
  then show ?case by simp
next
  case (Cons parent rest)
  define st1 where "st1 = (if k \<noteq> 1 then st\<lparr> current_tags := bank_tag (the parent) @ job_tags job \<rparr> else st)"
  have tagstep: "(if k \<noteq> 1
            then (case parent of
                    None \<Rightarrow> Inl AttributeError
                  | Some p \<Rightarrow> Inr (st\<lparr> current_tags := bank_tag p @ job_tags job \<rparr>))
            else Inr st) = Inr st1"
    using Cons.prems(2) by (auto simp: st1_def split: option.splits)
  have nst1: "nodes st1 = nodes st" by (simp add: st1_def)
  from Cons.prems(1) have "\<exists>node. create_node job (current_tags st1) d v parent df = Inr node"
    by simp
  then obtain node where
    node: "create_node job (current_tags st1) d v parent df = Inr node" ..
  define st2 where "st2 = st1\<lparr> nodes := nodes st1 @ [node],
                       out_files := out_files st1
                          @ filter (\<lambda>i. ''PSD_FILE'' \<notin> set (f_tags i)) (output_files job node) \<rparr>"
  have step: "node_loop job k d v df (parent # rest) st = node_loop job k d v df rest st2"
    unfolding st2_def by (simp only: node_loop.simps tagstep sum.case node)
  have "\<exists>st' new. node_loop job k d v df rest st2 = (st', None)
          \<and> nodes st' = nodes st2 @ new \<and> length new = length rest
          \<and> (\<forall>i<length rest. \<exists>tags. create_node job tags d v (rest ! i) df = Inr (new ! i))"
    using Cons.prems by (intro Cons.IH) auto
  then obtain st' new where r: "node_loop job k d v df rest st2 = (st', None)"
    "nodes st' = nodes st2 @ new" "length new = length rest"
    "\<forall>i<length rest. \<exists>tags. create_node job tags d v (rest ! i) df = Inr (new ! i)"
    by blast
  have n2: "nodes st2 = nodes st @ [node]" by (simp add: st2_def nst1)
  have "\<forall>i<length (parent # rest). \<exists>tags.
          create_node job tags d v ((parent # rest) ! i) df = Inr ((node # new) ! i)"
  proof (intro allI impI)
    fix i assume "i < length (parent # rest)"
    then show "\<exists>tags. create_node job tags d v ((parent # rest) ! i) df = Inr ((node # new) ! i)"
      using node r(3,4) by (cases i) auto
  qed
  moreover have "node_loop job k d v df (parent # rest) st = (st', None)" using step r(1) by simp
  moreover have "nodes st' = nodes st @ (node # new)" using r(2) n2 by simp
  moreover have "length (node # new) = length (parent # rest)" using r(3) by simp
  ultimately show ?case by blast
qed

section \<open>The concrete inputs, evaluated\<close>


lemma padded_segmenter_init:
  "JobSegmenter_init [2048] [(72, 1976)] (map seg_abs [(72, 1976)]) (0, 6000)
     (PyCBCInspiralExecutable True 8 8) = Inr padded_segmenter"
  by code_simp


lemma scenario_data_windows:
  "map (get_data_times_for_job scenario_segmenter) (py_range (num_jobs scenario_segmenter))
     = [Inr (0, 2048), Inr (1317, 3365), Inr (2634, 4682), Inr (3952, 6000)]"
  by code_simp



lemma scenario_pick:
  "pick_tile_size (of_int (seg_abs seg)) [2048] [(72, 1976)] (map seg_abs [(72, 1976)])
     = Inr (2048, (72, 1976), 1904)"
  by (simp add: pick_tile_size_def pick_index_def tile_def lookup_def seg_abs_def)

lemma scenario_job_windows:
  "get_valid_times_for_job scenario_segmenter 0 True = Inr (72, 1976)"
  "get_data_times_for_job scenario_segmenter 0 = Inr (0, 2048)"
  "get_valid_times_for_job scenario_segmenter 3 True = Inr (4024, 5928)"
  "get_data_times_for_job scenario_segmenter 3 = Inr (3952, 6000)"
  by code_simp+

text \<open>
  Scenario 3 of the specification: a catalogue with one bank file covering
  [50, 2000] resolves for the valid window [72, 1976] and raises for [3000, 4000].
\<close>

lemma bank_file_resolution:
  "find_parents ''H1'' (Some [bank_file]) (72, 1976) = Inr [Some bank_file]"
  "find_parents ''H1'' (Some [bank_file]) (3000, 4000)
     = Inl (ValueError (parent_err_string (3000, 4000)))"
  by (simp_all add: find_parents_def find_overlapping_def bank_file_def intersects_def)

lemma parent_err_string_example:
  "parent_err_string (3000, 4000)
     = ''No parent jobs found overlapping 3000 to 4000.'' @ [CHR 0x0A]
         @ ''This is a bad error! Contact a developer.''"
  by code_simp

section \<open>The claims\<close>











text \<open>
  C5. For every segmenter and every job number the offset added to the valid chunk
  equals the offset added to the data chunk. For a segmenter built by the
  constructor, a valid chunk inside \<open>[0, data_length]\<close>, pads that are not negative
  and \<open>allow_overlap = True\<close>, every job \<open>0 \<le> i < num_jobs\<close> has a valid window and
  a data window, and the valid window lies inside the data window.
\<close>

theorem valid_window_within_data_window:
  assumes init: "JobSegmenter_init dls vcs (map seg_abs vcs) seg cls = Inr js"
    and wf: "fst (valid_chunk js) \<le> snd (valid_chunk js)"
    and inside: "0 \<le> fst (valid_chunk js)" "snd (valid_chunk js) \<le> data_length js"
    and pads: "nonneg_pads cls"
    and i: "0 \<le> i" "i < num_jobs js"
  shows "valid_shift_dur js' i' = data_shift_dur js' i'
       \<and> (\<exists>v d. get_valid_times_for_job js i True = Inr v \<and> get_data_times_for_job js i = Inr d
              \<and> fst d \<le> fst v \<and> snd v \<le> snd d)"
proof -
  have n: "1 \<le> num_jobs js" using i by simp
  note long = init_long_of_jobs[OF init n]
  note dc = init_data_chunk[OF init wf n]
  have cs: "curr_seg js = seg" by (rule init_fields(1)[OF init])
  have ec: "exe_class js = cls" by (rule init_fields(2)[OF init])
  let ?vc = "valid_chunk js"
  from init_data_window[OF init wf n i] obtain off where
    off: "get_data_times_for_job js i
            = Inr (extend_data_seg cls (fst seg + off, data_length js + (fst seg + off)) seg)"
      "valid_shift_dur js i = Inr (fst seg + off)"
      "0 \<le> off" "off \<le> seg_abs seg - data_length js"
    by blast
  let ?v = "(fst ?vc + (fst seg + off), snd ?vc + (fst seg + off))"
  let ?raw = "(fst seg + off, data_length js + (fst seg + off))"
  let ?d = "extend_data_seg cls ?raw seg"
  have v: "get_valid_times_for_job js i True = Inr ?v"
    by (simp add: get_valid_times_for_job_def off(2) seg_shift_wf[OF wf])
  have d: "get_data_times_for_job js i = Inr ?d" by (rule off(1))
  have wider: "fst ?d \<le> fst ?raw" "snd ?raw \<le> snd ?d"
    using extend_data_seg_flush(1,2)[OF pads, of ?raw seg] dc(2) off(3,4)
    by (simp_all add: seg_abs_def)
  have "fst ?raw \<le> fst ?v" using inside(1) by simp
  with wider(1) have "fst ?d \<le> fst ?v" by (rule order_trans)
  moreover have "snd ?v \<le> snd ?raw" using inside(2) by simp
  then have "snd ?v \<le> snd ?d" using wider(2) by (rule order_trans)
  moreover have "valid_shift_dur js' i' = data_shift_dur js' i'"
    by (simp add: valid_shift_dur_def data_shift_dur_def)
  ultimately show ?thesis using v d by blast
qed

theorem valid_window_within_data_window_witness:
  "JobSegmenter_init [2048] [(72, 1976)] (map seg_abs [(72, 1976)]) (0, 6000)
      (PyCBCInspiralExecutable True 8 8) = Inr padded_segmenter
   \<and> fst (valid_chunk padded_segmenter) \<le> snd (valid_chunk padded_segmenter)
   \<and> 0 \<le> fst (valid_chunk padded_segmenter)
   \<and> snd (valid_chunk padded_segmenter) \<le> data_length padded_segmenter
   \<and> nonneg_pads (PyCBCInspiralExecutable True 8 8)
   \<and> (0 :: int) \<le> 1 \<and> 1 < num_jobs padded_segmenter
   \<and> valid_shift_dur padded_segmenter 1 = data_shift_dur padded_segmenter 1
   \<and> (\<exists>v d. get_valid_times_for_job padded_segmenter 1 True = Inr v
          \<and> get_data_times_for_job padded_segmenter 1 = Inr d
          \<and> fst d \<le> fst v \<and> snd v \<le> snd d)"
proof -
  note h1 = padded_segmenter_init
  have h2: "fst (valid_chunk padded_segmenter) \<le> snd (valid_chunk padded_segmenter)"
    and h3: "0 \<le> fst (valid_chunk padded_segmenter)"
    and h4: "snd (valid_chunk padded_segmenter) \<le> data_length padded_segmenter"
    and h7: "1 < num_jobs padded_segmenter"
    by (simp_all add: padded_segmenter_def scenario_segmenter_def)
  have h5: "nonneg_pads (PyCBCInspiralExecutable True 8 8)" by (simp add: nonneg_pads_def)
  have h6: "(0 :: int) \<le> 1" by simp
  from valid_window_within_data_window[OF h1 h2 h3 h4 h5 h6 h7, of padded_segmenter 1]
    h1 h2 h3 h4 h5 h6 h7
  show ?thesis by blast
qed



text \<open>
  C7. A dependency class is required when its list is supplied and not empty (the
  tests \<open>if parents:\<close> and \<open>if datafind_outs:\<close> of the driver). For a job whose
  two windows were computed: if no file of the parents of this detector overlaps
  the valid window, or no datafind file of this detector overlaps the data window,
  the body of the job loop raises \<open>ValueError\<close> and leaves the workflow, the
  output files and the tags as they were: no node was created or added. If every
  required class has an overlapping file, neither error is raised and the body goes
  on to create the nodes.
\<close>

theorem missing_required_input_is_fatal:
  assumes v: "get_valid_times_for_job segmenter job_num allow_overlap = Inr job_valid_seg"
    and d: "get_data_times_for_job segmenter job_num = Inr job_data_seg"
  shows "(parents = Some ps \<and> ps \<noteq> []
            \<and> (\<forall>a\<in>set ps. \<not> (intersects (f_seg a) job_valid_seg \<and> f_ifo a = ifo))
          \<longrightarrow> (\<exists>msg. setup_job job ifo parents datafind_outs allow_overlap segmenter job_num st
                        = (st, Some (ValueError msg))))
       \<and> (datafind_outs = Some ds \<and> ds \<noteq> []
            \<and> (\<forall>a\<in>set ds. \<not> (intersects (f_seg a) job_data_seg \<and> f_ifo a = ifo))
          \<longrightarrow> (\<exists>msg. setup_job job ifo parents datafind_outs allow_overlap segmenter job_num st
                        = (st, Some (ValueError msg))))
       \<and> ((truthy parents \<longrightarrow>
              (\<exists>a\<in>set (the parents). intersects (f_seg a) job_valid_seg \<and> f_ifo a = ifo))
            \<and> (truthy datafind_outs \<longrightarrow>
              (\<exists>a\<in>set (the datafind_outs). intersects (f_seg a) job_data_seg \<and> f_ifo a = ifo))
          \<longrightarrow> (\<exists>curr_parent curr_dfouts.
                 find_parents ifo parents job_valid_seg = Inr curr_parent
               \<and> find_dfouts ifo datafind_outs job_data_seg = Inr curr_dfouts
               \<and> setup_job job ifo parents datafind_outs allow_overlap segmenter job_num st
                   = node_loop job (length curr_parent) job_data_seg job_valid_seg curr_dfouts
                       curr_parent st))"
proof (intro conjI impI)
  assume a: "parents = Some ps \<and> ps \<noteq> []
            \<and> (\<forall>a\<in>set ps. \<not> (intersects (f_seg a) job_valid_seg \<and> f_ifo a = ifo))"
  then have "find_overlapping ps ifo job_valid_seg = []" by (simp add: find_overlapping_empty)
  with a have "find_parents ifo parents job_valid_seg
      = Inl (ValueError (parent_err_string job_valid_seg))"
    by (simp add: find_parents_cases truthy_def)
  then show "\<exists>msg. setup_job job ifo parents datafind_outs allow_overlap segmenter job_num st
                        = (st, Some (ValueError msg))"
    by (simp add: setup_job_def v d)
next
  assume a: "datafind_outs = Some ds \<and> ds \<noteq> []
            \<and> (\<forall>a\<in>set ds. \<not> (intersects (f_seg a) job_data_seg \<and> f_ifo a = ifo))"
  then have "find_overlapping ds ifo job_data_seg = []" by (simp add: find_overlapping_empty)
  with a have df: "find_dfouts ifo datafind_outs job_data_seg
      = Inl (ValueError (datafind_err_str job_data_seg))"
    by (simp add: find_dfouts_cases truthy_def)
  show "\<exists>msg. setup_job job ifo parents datafind_outs allow_overlap segmenter job_num st
                        = (st, Some (ValueError msg))"
  proof (cases "find_parents ifo parents job_valid_seg")
    case (Inl e)
    then obtain msg where "e = ValueError msg"
      by (auto simp: find_parents_cases split: if_splits)
    with Inl show ?thesis by (simp add: setup_job_def v d)
  next
    case (Inr curr_parent)
    then show ?thesis by (simp add: setup_job_def v d df)
  qed
next
  assume a: "(truthy parents \<longrightarrow>
              (\<exists>a\<in>set (the parents). intersects (f_seg a) job_valid_seg \<and> f_ifo a = ifo))
            \<and> (truthy datafind_outs \<longrightarrow>
              (\<exists>a\<in>set (the datafind_outs). intersects (f_seg a) job_data_seg \<and> f_ifo a = ifo))"
  then have p: "truthy parents \<longrightarrow> find_overlapping (the parents) ifo job_valid_seg \<noteq> []"
    and f: "truthy datafind_outs \<longrightarrow> find_overlapping (the datafind_outs) ifo job_data_seg \<noteq> []"
    by (auto simp: find_overlapping_empty)
  from p have "\<exists>curr_parent. find_parents ifo parents job_valid_seg = Inr curr_parent"
    by (cases "truthy parents") (simp_all add: find_parents_cases)
  then obtain curr_parent where cp: "find_parents ifo parents job_valid_seg = Inr curr_parent" ..
  from f have "\<exists>curr_dfouts. find_dfouts ifo datafind_outs job_data_seg = Inr curr_dfouts"
    by (cases "truthy datafind_outs") (simp_all add: find_dfouts_cases)
  then obtain curr_dfouts where cd: "find_dfouts ifo datafind_outs job_data_seg = Inr curr_dfouts" ..
  have "setup_job job ifo parents datafind_outs allow_overlap segmenter job_num st
          = node_loop job (length curr_parent) job_data_seg job_valid_seg curr_dfouts curr_parent st"
    by (simp add: setup_job_def v d cp cd)
  with cp cd show "\<exists>curr_parent curr_dfouts.
                 find_parents ifo parents job_valid_seg = Inr curr_parent
               \<and> find_dfouts ifo datafind_outs job_data_seg = Inr curr_dfouts
               \<and> setup_job job ifo parents datafind_outs allow_overlap segmenter job_num st
                   = node_loop job (length curr_parent) job_data_seg job_valid_seg curr_dfouts
                       curr_parent st"
    by blast
qed

theorem missing_required_input_is_fatal_witness:
  "get_valid_times_for_job scenario_segmenter 3 True = Inr (4024, 5928)
   \<and> get_data_times_for_job scenario_segmenter 3 = Inr (3952, 6000)
   \<and> find_overlapping [bank_file] ''H1'' (4024, 5928) = []
   \<and> (\<exists>msg. setup_job plain_job ''H1'' (Some [bank_file]) None True scenario_segmenter 3
                 empty_workflow = (empty_workflow, Some (ValueError msg)))
   \<and> find_overlapping frame_files ''V1'' (3952, 6000) = []
   \<and> (\<exists>msg. setup_job plain_job ''V1'' None (Some frame_files) True scenario_segmenter 3
                 empty_workflow = (empty_workflow, Some (ValueError msg)))
   \<and> get_valid_times_for_job scenario_segmenter 0 True = Inr (72, 1976)
   \<and> get_data_times_for_job scenario_segmenter 0 = Inr (0, 2048)
   \<and> (\<exists>a\<in>set [bank_file]. intersects (f_seg a) (72, 1976) \<and> f_ifo a = ''H1'')
   \<and> (\<exists>a\<in>set frame_files. intersects (f_seg a) (0, 2048) \<and> f_ifo a = ''H1'')
   \<and> (\<exists>curr_parent curr_dfouts.
          find_parents ''H1'' (Some [bank_file]) (72, 1976) = Inr curr_parent
        \<and> find_dfouts ''H1'' (Some frame_files) (0, 2048) = Inr curr_dfouts
        \<and> setup_job plain_job ''H1'' (Some [bank_file]) (Some frame_files) True scenario_segmenter 0
             empty_workflow
            = node_loop plain_job (length curr_parent) (0, 2048) (72, 1976) curr_dfouts
                curr_parent empty_workflow)"
proof -
  note w = scenario_job_windows
  have a: "\<forall>a\<in>set [bank_file]. \<not> (intersects (f_seg a) (4024, 5928) \<and> f_ifo a = ''H1'')"
    by (simp add: bank_file_def intersects_def)
  have b: "\<forall>a\<in>set frame_files. \<not> (intersects (f_seg a) (3952, 6000) \<and> f_ifo a = ''V1'')"
    by (simp add: frame_files_def intersects_def)
  have c1: "\<exists>a\<in>set [bank_file]. intersects (f_seg a) (72, 1976) \<and> f_ifo a = ''H1''"
    by (simp add: bank_file_def intersects_def)
  have c2: "\<exists>a\<in>set frame_files. intersects (f_seg a) (0, 2048) \<and> f_ifo a = ''H1''"
    by (simp add: frame_files_def intersects_def)
  have ne: "frame_files \<noteq> []" by (simp add: frame_files_def)
  from missing_required_input_is_fatal[OF w(3) w(4), where parents = "Some [bank_file]"
      and ps = "[bank_file]" and ifo = "''H1''" and job = plain_job and datafind_outs = None
      and st = empty_workflow] a
  have A: "\<exists>msg. setup_job plain_job ''H1'' (Some [bank_file]) None True scenario_segmenter 3
                 empty_workflow = (empty_workflow, Some (ValueError msg))"
    by simp
  from missing_required_input_is_fatal[OF w(3) w(4), where parents = None
      and ifo = "''V1''" and job = plain_job and datafind_outs = "Some frame_files"
      and ds = frame_files and st = empty_workflow] b ne
  have B: "\<exists>msg. setup_job plain_job ''V1'' None (Some frame_files) True scenario_segmenter 3
                 empty_workflow = (empty_workflow, Some (ValueError msg))"
    by simp
  from missing_required_input_is_fatal[OF w(1) w(2), where parents = "Some [bank_file]"
      and ifo = "''H1''" and job = plain_job and datafind_outs = "Some frame_files"
      and st = empty_workflow] c1 c2
  have C: "\<exists>curr_parent curr_dfouts.
          find_parents ''H1'' (Some [bank_file]) (72, 1976) = Inr curr_parent
        \<and> find_dfouts ''H1'' (Some frame_files) (0, 2048) = Inr curr_dfouts
        \<and> setup_job plain_job ''H1'' (Some [bank_file]) (Some frame_files) True scenario_segmenter 0
             empty_workflow
            = node_loop plain_job (length curr_parent) (0, 2048) (72, 1976) curr_dfouts
                curr_parent empty_workflow"
    by simp
  have a': "find_overlapping [bank_file] ''H1'' (4024, 5928) = []"
    using a by (simp only: find_overlapping_empty)
  have b': "find_overlapping frame_files ''V1'' (3952, 6000) = []"
    using b by (simp only: find_overlapping_empty)
  from w a' b' c1 c2 A B C show ?thesis by blast
qed

text \<open>
  C8. For a job whose windows and inputs were resolved and whose \<open>create_node\<close>
  does not raise: the body of the job loop adds exactly one node for each entry of
  \<open>curr_parent\<close>, in order, each created with the same data segment, the same
  valid segment and the same datafind files. When the parents are required,
  \<open>curr_parent\<close> is the list of the \<open>N \<ge> 1\<close> files that were found, so \<open>N\<close>
  nodes are added; when no parents are supplied it is \<open>[None]\<close> and one node is
  added.
\<close>

theorem one_node_per_resolved_parent:
  assumes v: "get_valid_times_for_job segmenter job_num allow_overlap = Inr job_valid_seg"
    and d: "get_data_times_for_job segmenter job_num = Inr job_data_seg"
    and cp: "find_parents ifo parents job_valid_seg = Inr curr_parent"
    and cd: "find_dfouts ifo datafind_outs job_data_seg = Inr curr_dfouts"
    and ok: "\<forall>p\<in>set curr_parent. \<forall>tags. \<exists>node.
               create_node job tags job_data_seg job_valid_seg p curr_dfouts = Inr node"
  shows "\<exists>st' new.
           setup_job job ifo parents datafind_outs allow_overlap segmenter job_num st = (st', None)
         \<and> nodes st' = nodes st @ new
         \<and> length new = length curr_parent
         \<and> (\<forall>i<length curr_parent. \<exists>tags.
               create_node job tags job_data_seg job_valid_seg (curr_parent ! i) curr_dfouts
                 = Inr (new ! i))
         \<and> (truthy parents \<longrightarrow>
               curr_parent = map Some (find_overlapping (the parents) ifo job_valid_seg)
             \<and> length new = length (find_overlapping (the parents) ifo job_valid_seg)
             \<and> 1 \<le> length new)
         \<and> (\<not> truthy parents \<longrightarrow> curr_parent = [None] \<and> length new = 1)"
proof -
  have shape: "(truthy parents \<longrightarrow>
                  curr_parent = map Some (find_overlapping (the parents) ifo job_valid_seg)
                \<and> find_overlapping (the parents) ifo job_valid_seg \<noteq> [])
             \<and> (\<not> truthy parents \<longrightarrow> curr_parent = [None])"
    using cp by (auto simp: find_parents_cases split: if_splits)
  then have noNone: "length curr_parent \<noteq> 1 \<longrightarrow> None \<notin> set curr_parent"
    by (cases "truthy parents") auto
  from node_loop_adds_one_node_per_parent[OF ok noNone, of st] obtain st' new where
    r: "node_loop job (length curr_parent) job_data_seg job_valid_seg curr_dfouts curr_parent st
          = (st', None)"
      "nodes st' = nodes st @ new" "length new = length curr_parent"
      "\<forall>i<length curr_parent. \<exists>tags.
          create_node job tags job_data_seg job_valid_seg (curr_parent ! i) curr_dfouts = Inr (new ! i)"
    by blast
  have run: "setup_job job ifo parents datafind_outs allow_overlap segmenter job_num st = (st', None)"
    by (simp add: setup_job_def v d cp cd r(1))
  have t: "truthy parents \<longrightarrow>
               curr_parent = map Some (find_overlapping (the parents) ifo job_valid_seg)
             \<and> length new = length (find_overlapping (the parents) ifo job_valid_seg)
             \<and> 1 \<le> length new"
    using shape r(3) by (auto simp: Suc_le_eq)
  have f: "\<not> truthy parents \<longrightarrow> curr_parent = [None] \<and> length new = 1"
    using shape r(3) by auto
  from run r(2,3,4) t f show ?thesis by blast
qed

theorem one_node_per_resolved_parent_witness:
  "get_valid_times_for_job scenario_segmenter 0 True = Inr (72, 1976)
   \<and> get_data_times_for_job scenario_segmenter 0 = Inr (0, 2048)
   \<and> find_parents ''H1'' (Some split_bank_files) (72, 1976) = Inr (map Some split_bank_files)
   \<and> find_dfouts ''H1'' (Some frame_files) (0, 2048) = Inr (Some [hd frame_files])
   \<and> (\<exists>st' new.
         setup_job plain_job ''H1'' (Some split_bank_files) (Some frame_files) True
           scenario_segmenter 0 empty_workflow = (st', None)
       \<and> nodes st' = nodes empty_workflow @ new \<and> length new = 2
       \<and> (\<forall>i<2. \<exists>tags. create_node plain_job tags (0, 2048) (72, 1976)
                          (Some (split_bank_files ! i)) (Some [hd frame_files]) = Inr (new ! i)))
   \<and> find_parents ''H1'' None (72, 1976) = Inr [None]
   \<and> (\<exists>st' new.
         setup_job plain_job ''H1'' None (Some frame_files) True
           scenario_segmenter 0 empty_workflow = (st', None)
       \<and> nodes st' = nodes empty_workflow @ new \<and> length new = 1)"
proof -
  note w = scenario_job_windows
  have cp: "find_parents ''H1'' (Some split_bank_files) (72, 1976) = Inr (map Some split_bank_files)"
    by code_simp
  have cd: "find_dfouts ''H1'' (Some frame_files) (0, 2048) = Inr (Some [hd frame_files])"
    by code_simp
  have cp0: "find_parents ''H1'' None (72, 1976) = Inr [None]"
    by (simp add: find_parents_def)
  have ok: "\<forall>p\<in>set ps. \<forall>tags. \<exists>node.
               create_node plain_job tags (0, 2048) (72, 1976) p (Some [hd frame_files]) = Inr node" for ps
    by (simp add: plain_job_def)
  have len: "length split_bank_files = 2" by (simp add: split_bank_files_def)
  from one_node_per_resolved_parent[OF w(1) w(2) cp cd ok, where st = empty_workflow]
  obtain st' new where r:
    "setup_job plain_job ''H1'' (Some split_bank_files) (Some frame_files) True
           scenario_segmenter 0 empty_workflow = (st', None)"
    "nodes st' = nodes empty_workflow @ new"
    "length new = length (map Some split_bank_files)"
    "\<forall>i<length (map Some split_bank_files). \<exists>tags.
        create_node plain_job tags (0, 2048) (72, 1976) (map Some split_bank_files ! i)
          (Some [hd frame_files]) = Inr (new ! i)"
    by blast
  have A: "\<exists>st' new.
         setup_job plain_job ''H1'' (Some split_bank_files) (Some frame_files) True
           scenario_segmenter 0 empty_workflow = (st', None)
       \<and> nodes st' = nodes empty_workflow @ new \<and> length new = 2
       \<and> (\<forall>i<2. \<exists>tags. create_node plain_job tags (0, 2048) (72, 1976)
                          (Some (split_bank_files ! i)) (Some [hd frame_files]) = Inr (new ! i))"
    using r len by (intro exI[of _ st'] exI[of _ new]) simp
  from one_node_per_resolved_parent[OF w(1) w(2) cp0 cd ok, where st = empty_workflow]
  have B: "\<exists>st' new.
         setup_job plain_job ''H1'' None (Some frame_files) True
           scenario_segmenter 0 empty_workflow = (st', None)
       \<and> nodes st' = nodes empty_workflow @ new \<and> length new = 1"
    by auto
  from w(1) w(2) cp cd cp0 A B show ?thesis by blast
qed

text \<open>
  C9. Profile selection: a profile with exactly one entry yields that entry; otherwise
  the entry chosen is one whose valid length is as close to a third of the segment
  length as any other's, and every entry before it in the profile is strictly
  farther away (ties go to the earliest entry). The valid lengths are those
  \<open>identify_needed_data\<close> computes from the valid chunks.
\<close>

theorem pick_tile_size_closest_to_third:
  fixes t :: rat
  assumes "vcs \<noteq> []" and "length dls = length vcs"
  shows "\<exists>p<length vcs.
      pick_tile_size t dls vcs (map seg_abs vcs) = Inr (dls ! p, vcs ! p, seg_abs (vcs ! p))
    \<and> (length vcs = 1 \<longrightarrow> p = 0)
    \<and> (\<forall>j<length vcs. \<bar>of_int (seg_abs (vcs ! p)) - t / 3\<bar> \<le> \<bar>of_int (seg_abs (vcs ! j)) - t / 3\<bar>)
    \<and> (\<forall>j<p. \<bar>of_int (seg_abs (vcs ! p)) - t / 3\<bar> < \<bar>of_int (seg_abs (vcs ! j)) - t / 3\<bar>)"
proof -
  from assms(1) have ne: "map seg_abs vcs \<noteq> []" by simp
  from pick_index_argmin[OF ne, of t] obtain p where
    p: "pick_index t (map seg_abs vcs) = Inr p" "p < length vcs"
      "length vcs = 1 \<longrightarrow> p = 0"
      "\<forall>j<length vcs. \<bar>of_int (map seg_abs vcs ! p) - t / 3\<bar> \<le> \<bar>of_int (map seg_abs vcs ! j) - t / 3\<bar>"
      "\<forall>j<p. \<bar>of_int (map seg_abs vcs ! p) - t / 3\<bar> < \<bar>of_int (map seg_abs vcs ! j) - t / 3\<bar>"
    by auto
  have "pick_tile_size t dls vcs (map seg_abs vcs) = Inr (dls ! p, vcs ! p, seg_abs (vcs ! p))"
    using p(1,2) assms(2) by (simp add: pick_tile_size_def tile_def lookup_def)
  moreover have "\<forall>j<length vcs. \<bar>of_int (seg_abs (vcs ! p)) - t / 3\<bar> \<le> \<bar>of_int (seg_abs (vcs ! j)) - t / 3\<bar>"
    using p(2,4) by simp
  moreover have "\<forall>j<p. \<bar>of_int (seg_abs (vcs ! p)) - t / 3\<bar> < \<bar>of_int (seg_abs (vcs ! j)) - t / 3\<bar>"
    using p(2,5) by simp
  ultimately show ?thesis using p(2,3) by blast
qed

theorem pick_tile_size_closest_to_third_witness:
  "[(0, 10), (0, 30), (0, 20)] \<noteq> ([] :: segment list)
   \<and> length [12, 32, 22 :: int] = length [(0, 10), (0, 30), (0, 20) :: segment]
   \<and> (\<exists>p<length [(0, 10), (0, 30), (0, 20) :: segment].
        pick_tile_size 60 [12, 32, 22] [(0, 10), (0, 30), (0, 20)]
            (map seg_abs [(0, 10), (0, 30), (0, 20)])
          = Inr ([12, 32, 22] ! p, [(0, 10), (0, 30), (0, 20)] ! p,
                 seg_abs ([(0, 10), (0, 30), (0, 20)] ! p))
      \<and> (length [(0, 10), (0, 30), (0, 20) :: segment] = 1 \<longrightarrow> p = 0)
      \<and> (\<forall>j<length [(0, 10), (0, 30), (0, 20) :: segment].
            \<bar>of_int (seg_abs ([(0, 10), (0, 30), (0, 20)] ! p)) - (60 :: rat) / 3\<bar>
              \<le> \<bar>of_int (seg_abs ([(0, 10), (0, 30), (0, 20)] ! j)) - 60 / 3\<bar>)
      \<and> (\<forall>j<p. \<bar>of_int (seg_abs ([(0, 10), (0, 30), (0, 20)] ! p)) - (60 :: rat) / 3\<bar>
              < \<bar>of_int (seg_abs ([(0, 10), (0, 30), (0, 20)] ! j)) - 60 / 3\<bar>))"
proof -
  have h1: "[(0, 10), (0, 30), (0, 20)] \<noteq> ([] :: segment list)" by simp
  have h2: "length [12, 32, 22 :: int] = length [(0, 10), (0, 30), (0, 20) :: segment]" by simp
  from pick_tile_size_closest_to_third[OF h1 h2, of 60] h1 h2 show ?thesis by blast
qed

text \<open>
  C10. A science segment shorter than the data length of the chosen tile, with a
  profile whose data loss is not negative: the constructor returns a segmenter
  with \<open>num_jobs = 0\<close> and raises nothing, the range of job numbers is empty, and
  the driver, run on that segment, returns without error and leaves the workflow
  and the output files as they were: no job is set up.
\<close>

theorem short_segment_yields_no_jobs:
  assumes "pick_tile_size (of_int (seg_abs seg)) dls vcs (map seg_abs vcs) = Inr (dlen, vchunk, vlen)"
    and "0 \<le> dlen - seg_abs vchunk"
    and "seg_abs seg < dlen"
  shows "(\<exists>js. JobSegmenter_init dls vcs (map seg_abs vcs) seg cls = Inr js
            \<and> num_jobs js = 0 \<and> py_range (num_jobs js) = [])
       \<and> (job_valid_times job = (dls, vcs) \<and> job_class job = cls \<longrightarrow>
            sngl_ifo_job_setup workflow ifo out job [seg] datafind_outs parents allow_overlap
              = (\<lparr> nodes = workflow, out_files = out, current_tags = job_tags job \<rparr>, None))"
proof -
  obtain js where js: "JobSegmenter_init dls vcs (map seg_abs vcs) seg cls = Inr js"
    and n: "num_jobs js = 0"
    using assms by (auto simp: JobSegmenter_init_def Let_def)
  have r: "py_range (num_jobs js) = []" by (simp add: n py_range_def)
  have "sngl_ifo_job_setup workflow ifo out job [seg] datafind_outs parents allow_overlap
              = (\<lparr> nodes = workflow, out_files = out, current_tags = job_tags job \<rparr>, None)"
    if "job_valid_times job = (dls, vcs)" "job_class job = cls"
    using that js r by (simp add: sngl_ifo_job_setup_def identify_needed_data_def)
  with js n r show ?thesis by blast
qed

theorem short_segment_yields_no_jobs_witness:
  "pick_tile_size (of_int (seg_abs (0, 1000))) [2048] [(72, 1976)] (map seg_abs [(72, 1976)])
      = Inr (2048, (72, 1976), 1904)
   \<and> (0 :: int) \<le> 2048 - seg_abs (72, 1976)
   \<and> seg_abs (0, 1000) < 2048
   \<and> (\<exists>js. JobSegmenter_init [2048] [(72, 1976)] (map seg_abs [(72, 1976)]) (0, 1000)
               PyCBCTmpltbankExecutable = Inr js
            \<and> num_jobs js = 0 \<and> py_range (num_jobs js) = [])
   \<and> job_valid_times plain_job = ([2048], [(72, 1976)])
   \<and> job_class plain_job = PyCBCTmpltbankExecutable
   \<and> sngl_ifo_job_setup [] ''H1'' [] plain_job [(0, 1000)] (Some frame_files) (Some [bank_file])
         True
       = (\<lparr> nodes = [], out_files = [], current_tags = job_tags plain_job \<rparr>, None)"
proof -
  note h1 = scenario_pick[of "(0, 1000)"]
  have h2: "(0 :: int) \<le> 2048 - seg_abs (72, 1976)" by (simp add: seg_abs_def)
  have h3: "seg_abs (0, 1000) < 2048" by (simp add: seg_abs_def)
  have j: "job_valid_times plain_job = ([2048], [(72, 1976)])"
    "job_class plain_job = PyCBCTmpltbankExecutable"
    by (simp_all add: plain_job_def)
  from short_segment_yields_no_jobs[OF h1 h2 h3, where cls = PyCBCTmpltbankExecutable
      and job = plain_job and ifo = "''H1''" and parents = "Some [bank_file]"
      and datafind_outs = "Some frame_files" and allow_overlap = True
      and workflow = "[]" and out = "[]"]
    h1 h2 h3 j
  show ?thesis by blast
qed

end
